theory Spec2Isabelle
  imports Main
begin

section \<open>Values, dictionaries and entities\<close>

text \<open>
  The plugin \<^verbatim>\<open>playbook/vars_plugins/hashivault_vars.py\<close> handles Ansible variables.
  The values that matter to it are \<^verbatim>\<open>None\<close>, booleans, integers and strings; a
  dictionary of variables is a finite map from names to such values.
\<close>

datatype pyval = PNone | PBool bool | PInt int | PStr string

type_synonym pydict = "string \<rightharpoonup> pyval"

text \<open>Python's \<^verbatim>\<open>==\<close> on these values: a boolean equals the integer 0 or 1.\<close>

fun py_eq :: "pyval \<Rightarrow> pyval \<Rightarrow> bool" where
  "py_eq PNone PNone = True"
| "py_eq (PBool a) (PBool b) = (a = b)"
| "py_eq (PBool a) (PInt i) = (i = (if a then 1 else 0))"
| "py_eq (PInt i) (PBool b) = (i = (if b then 1 else 0))"
| "py_eq (PInt i) (PInt j) = (i = j)"
| "py_eq (PStr s) (PStr t) = (s = t)"
| "py_eq _ _ = False"

text \<open>\<^verbatim>\<open>d.get(k)\<close>: the value stored under \<open>k\<close>, and \<^verbatim>\<open>None\<close> when there is none.\<close>

definition py_get :: "pydict \<Rightarrow> string \<Rightarrow> pyval" where
  "py_get d k = (case d k of None \<Rightarrow> PNone | Some v \<Rightarrow> v)"

text \<open>\<^verbatim>\<open>"%s" % v\<close>: the string form of a value, decimal for an integer.\<close>

definition digit_char :: "nat \<Rightarrow> char" where
  "digit_char d = char_of (48 + d)"

fun digits :: "nat \<Rightarrow> string" where
  "digits n = (if n < 10 then [digit_char n] else digits (n div 10) @ [digit_char (n mod 10)])"

fun py_str :: "pyval \<Rightarrow> string" where
  "py_str PNone = ''None''"
| "py_str (PBool b) = (if b then ''True'' else ''False'')"
| "py_str (PInt i) = (if i < 0 then ''-'' @ digits (nat (- i)) else digits (nat i))"
| "py_str (PStr s) = s"

text \<open>
  \<^verbatim>\<open>s.split(c)\<close> for a one-character separator: the pieces between the separators,
  of which there is always at least one (the empty string gives one empty piece).
\<close>

primrec py_split :: "char \<Rightarrow> string \<Rightarrow> string list" where
  "py_split c [] = [[]]"
| "py_split c (x # xs) =
     (if x = c then [] # py_split c xs
      else (case py_split c xs of [] \<Rightarrow> [[x]] | p # ps \<Rightarrow> (x # p) # ps))"

text \<open>
  An entity handed to the plugin is an Ansible \<^verbatim>\<open>Group\<close>, an Ansible \<^verbatim>\<open>Host\<close>
  with its own variables, or an object of some other type, of which only the name of
  the type is kept.
\<close>

datatype entity = Group string | Host string pydict | Other string

datatype errarg = TypeOf string | Len nat

datatype error =
    AnsibleInternalError string errarg
  | KeyError string
  | AttributeError string

section \<open>The environment: sockets and the Vault client\<close>

text \<open>
  \<^verbatim>\<open>socket.inet_pton\<close> and \<^verbatim>\<open>socket.inet_aton\<close> belong to the platform, so they
  are parameters: each tells whether the address parses (\<open>True\<close>) or
  \<^verbatim>\<open>socket.error\<close> is raised (\<open>False\<close>). A platform without \<^verbatim>\<open>inet_pton\<close>
  has \<open>None\<close> in that field, and using it raises \<^verbatim>\<open>AttributeError\<close>.
\<close>

datatype family = AF_INET | AF_INET6

record socket =
  inet_pton :: "(family \<Rightarrow> string \<Rightarrow> bool) option"
  inet_aton :: "string \<Rightarrow> bool"

text \<open>
  \<^verbatim>\<open>self.v_client.read(path=...)\<close> is a parameter as well: \<open>None\<close> when the path
  holds nothing, and otherwise the dictionary found under \<^verbatim>\<open>"data"\<close> in the response.
\<close>

type_synonym client = "string \<Rightarrow> pydict option"

text \<open>
  The module-level \<^verbatim>\<open>vault_cache\<close> is the state. Two traces are kept beside it so
  that claims about what is looked up can be stated: the arguments of every call of
  \<^verbatim>\<open>_read_vault\<close>, and the path of every read sent to the client.
\<close>

record state =
  vault_cache :: "string \<rightharpoonup> pydict"
  lookups :: "(string \<times> string) list"
  store_reads :: "string list"

definition init_state :: state where
  "init_state = \<lparr>vault_cache = Map.empty, lookups = [], store_reads = []\<rparr>"

section \<open>The plugin\<close>

text \<open>
  \<^verbatim>\<open>_is_valid_ipv4_address\<close>, \<^verbatim>\<open>_is_valid_ipv6_address\<close> and
  \<^verbatim>\<open>_is_valid_ip_address\<close>. Only the IPv4 test has a fallback for a platform
  without \<^verbatim>\<open>inet_pton\<close>; the IPv6 test lets the \<^verbatim>\<open>AttributeError\<close> escape.
\<close>

definition is_valid_ipv4_address :: "socket \<Rightarrow> string \<Rightarrow> bool" where
  "is_valid_ipv4_address sock address =
     (case inet_pton sock of
        None \<Rightarrow>
          (if inet_aton sock address then count_list address (CHR ''.'') = 3 else False)
      | Some pton \<Rightarrow> pton AF_INET address)"

definition is_valid_ipv6_address :: "socket \<Rightarrow> string \<Rightarrow> error + bool" where
  "is_valid_ipv6_address sock address =
     (case inet_pton sock of
        None \<Rightarrow> Inl (AttributeError ''inet_pton'')
      | Some pton \<Rightarrow> Inr (pton AF_INET6 address))"

definition is_valid_ip_address :: "socket \<Rightarrow> string \<Rightarrow> error + bool" where
  "is_valid_ip_address sock address =
     (if is_valid_ipv4_address sock address then Inr True
      else is_valid_ipv6_address sock address)"

text \<open>
  \<^verbatim>\<open>_read_vault(folder, entity_name)\<close>: the cached value when the key is in the
  cache, and otherwise one read of the client, whose result (the empty dictionary
  when the path holds nothing) is stored under the key.
\<close>

definition read_vault :: "client \<Rightarrow> string \<Rightarrow> string \<Rightarrow> state \<Rightarrow> pydict \<times> state" where
  "read_vault cl folder entity_name st =
     (let key = folder @ ''/'' @ entity_name;
          st1 = st\<lparr>lookups := lookups st @ [(folder, entity_name)]\<rparr>
      in case vault_cache st1 key of
           Some cached_value \<Rightarrow> (cached_value, st1)
         | None \<Rightarrow>
             (let result = cl (''secret/ansible/'' @ key);
                  st2 = st1\<lparr>store_reads := store_reads st1 @ [''secret/ansible/'' @ key]\<rparr>;
                  data = (case result of None \<Rightarrow> Map.empty | Some d \<Rightarrow> d)
              in (data, st2\<lparr>vault_cache := (vault_cache st2)(key \<mapsto> data)\<rparr>)))"

text \<open>
  Modelled from the spec: \<^verbatim>\<open>combine_vars\<close> of \<^verbatim>\<open>ansible.utils.vars\<close>, which is
  not part of the source tree. The specification calls it an overlay: each key of the
  new record replaces the value in the accumulator, and the other keys are untouched;
  the result is a new dictionary.
\<close>

definition combine_vars :: "pydict \<Rightarrow> pydict \<Rightarrow> pydict" where
  "combine_vars a b = a ++ b"

text \<open>
  The first part of the \<^verbatim>\<open>Host\<close> branch of \<^verbatim>\<open>_get_vars\<close>: the connection
  defaults. It reads the variables of the host and writes into the accumulator
  \<open>data\<close>. Reading \<^verbatim>\<open>data["ansible_port"]\<close> raises \<^verbatim>\<open>KeyError\<close> when the key
  is absent.
\<close>

definition host_defaults :: "pydict \<Rightarrow> pydict \<Rightarrow> error + pydict" where
  "host_defaults data evars =
     (let data1 =
            (if py_eq (py_get evars ''ansible_port'') PNone
             then (if py_eq (py_get evars ''ansible_connection'') PNone
                   then data(''ansible_port'' \<mapsto> PInt 22)
                   else data)
             else data(''ansible_port'' \<mapsto> py_get evars ''ansible_port''))
      in if py_eq (py_get evars ''ansible_connection'') PNone
         then (case data1 ''ansible_port'' of
                 None \<Rightarrow> Inl (KeyError ''ansible_port'')
               | Some port \<Rightarrow>
                   (if py_eq port (PInt 5985) \<or> py_eq port (PInt 5986)
                    then Inr (data1(''ansible_connection'' \<mapsto> PStr ''winrm''))
                    else Inr (data1(''ansible_connection'' \<mapsto> PStr ''ssh''))))
         else Inr (data1(''ansible_connection'' \<mapsto> py_get evars ''ansible_connection'')))"

text \<open>
  The same block on a store of dictionary objects, to tell which object is written.
  A reference denotes a dictionary object; \<open>data\<close> and \<open>evars\<close> are the references
  held by the accumulator and by \<^verbatim>\<open>entity.vars\<close>. Each \<^verbatim>\<open>entity.vars.get\<close> reads
  the store as it is at that statement, and each assignment updates the object of
  \<open>data\<close> in place.
\<close>

type_synonym ref = nat

type_synonym heap = "ref \<Rightarrow> pydict"

definition host_defaults_heap :: "ref \<Rightarrow> ref \<Rightarrow> heap \<Rightarrow> error + heap" where
  "host_defaults_heap data evars h =
     (let h1 =
            (if py_eq (py_get (h evars) ''ansible_port'') PNone
             then (if py_eq (py_get (h evars) ''ansible_connection'') PNone
                   then h(data := (h data)(''ansible_port'' \<mapsto> PInt 22))
                   else h)
             else h(data := (h data)(''ansible_port'' \<mapsto> py_get (h evars) ''ansible_port'')))
      in if py_eq (py_get (h1 evars) ''ansible_connection'') PNone
         then (case h1 data ''ansible_port'' of
                 None \<Rightarrow> Inl (KeyError ''ansible_port'')
               | Some port \<Rightarrow>
                   (if py_eq port (PInt 5985) \<or> py_eq port (PInt 5986)
                    then Inr (h1(data := (h1 data)(''ansible_connection'' \<mapsto> PStr ''winrm'')))
                    else Inr (h1(data := (h1 data)(''ansible_connection'' \<mapsto> PStr ''ssh'')))))
         else Inr (h1(data := (h1 data)
                     (''ansible_connection'' \<mapsto> py_get (h1 evars) ''ansible_connection''))))"

text \<open>
  \<^verbatim>\<open>"%s/hosts" % (data["ansible_connection"])\<close> and its \<^verbatim>\<open>domains\<close> twin: the
  folder is built from the value the accumulator holds at that moment.
\<close>

definition conn_folder :: "pydict \<Rightarrow> string \<Rightarrow> error + string" where
  "conn_folder data suffix =
     (case data ''ansible_connection'' of
        None \<Rightarrow> Inl (KeyError ''ansible_connection'')
      | Some c \<Rightarrow> Inr (py_str c @ suffix))"

text \<open>
  The loop over the reversed parts of a host name, from the root of the domain to the
  full name. The folder changes to the \<^verbatim>\<open>hosts\<close> folder when the accumulated suffix
  is the name of the entity, and stays as it is otherwise.
\<close>

fun domain_loop ::
  "client \<Rightarrow> string \<Rightarrow> string list \<Rightarrow> string \<Rightarrow> string \<Rightarrow> pydict \<Rightarrow> state
     \<Rightarrow> (error + pydict) \<times> state" where
  "domain_loop cl ename [] folder prev_part data st = (Inr data, st)"
| "domain_loop cl ename (part # parts) folder prev_part data st =
     (let lookup_part = part @ prev_part
      in case (if lookup_part = ename then conn_folder data ''/hosts'' else Inr folder) of
           Inl e \<Rightarrow> (Inl e, st)
         | Inr folder1 \<Rightarrow>
             (case read_vault cl folder1 lookup_part st of
                (r, st1) \<Rightarrow>
                  domain_loop cl ename parts folder1 (''.'' @ part @ prev_part)
                    (combine_vars data r) st1))"

text \<open>The last line of \<^verbatim>\<open>_get_vars\<close>: one lookup, merged into the accumulator.\<close>

definition final_lookup ::
  "client \<Rightarrow> string \<Rightarrow> string \<Rightarrow> pydict \<Rightarrow> state \<Rightarrow> (error + pydict) \<times> state" where
  "final_lookup cl folder ename data st =
     (case read_vault cl folder ename st of
        (r, st1) \<Rightarrow> (Inr (combine_vars data r), st1))"

text \<open>\<^verbatim>\<open>_get_vars(data, entity)\<close>.\<close>

definition get_vars_inner ::
  "socket \<Rightarrow> client \<Rightarrow> pydict \<Rightarrow> entity \<Rightarrow> state \<Rightarrow> (error + pydict) \<times> state" where
  "get_vars_inner sock cl data entity st =
     (case entity of
        Group gname \<Rightarrow> final_lookup cl ''groups'' gname data st
      | Host hname hvars \<Rightarrow>
          (case host_defaults data hvars of
             Inl e \<Rightarrow> (Inl e, st)
           | Inr data1 \<Rightarrow>
               (case conn_folder data1 ''/hosts'' of
                  Inl e \<Rightarrow> (Inl e, st)
                | Inr folder \<Rightarrow>
                    (case is_valid_ip_address sock hname of
                       Inl e \<Rightarrow> (Inl e, st)
                     | Inr True \<Rightarrow> final_lookup cl folder hname data1 st
                     | Inr False \<Rightarrow>
                         (let parts = py_split (CHR ''.'') hname
                          in if length parts = 1 then final_lookup cl folder hname data1 st
                             else if length parts > 1 then
                               (case conn_folder data1 ''/domains'' of
                                  Inl e \<Rightarrow> (Inl e, st)
                                | Inr dfolder \<Rightarrow>
                                    domain_loop cl hname (rev parts) dfolder [] data1 st)
                             else
                               (Inl (AnsibleInternalError
                                       ''Failed to extract host name parts, len: %d''
                                       (Len (length parts))), st)))))
      | Other tname \<Rightarrow>
          (Inl (AnsibleInternalError
                  ''Unrecognised entity type encountered in hashivault_vars plugin: %s''
                  (TypeOf tname)), st))"

text \<open>
  \<^verbatim>\<open>get_vars(loader, path, entities)\<close>. The argument is a list of entities or one
  object that is not a list. The loader and the path only reach the base class, which
  records a directory, so they are left out. An exception ends the loop.
\<close>

datatype entities_arg = NotList entity | PyList "entity list"

fun get_vars_loop ::
  "socket \<Rightarrow> client \<Rightarrow> entity list \<Rightarrow> pydict \<Rightarrow> state \<Rightarrow> (error + pydict) \<times> state" where
  "get_vars_loop sock cl [] data st = (Inr data, st)"
| "get_vars_loop sock cl (entity # entities) data st =
     (case get_vars_inner sock cl data entity st of
        (Inl e, st1) \<Rightarrow> (Inl e, st1)
      | (Inr data1, st1) \<Rightarrow> get_vars_loop sock cl entities data1 st1)"

definition get_vars :: "socket \<Rightarrow> client \<Rightarrow> entities_arg \<Rightarrow> state \<Rightarrow> (error + pydict) \<times> state" where
  "get_vars sock cl entities st =
     (let entities1 = (case entities of NotList e \<Rightarrow> [e] | PyList es \<Rightarrow> es)
      in get_vars_loop sock cl entities1 Map.empty st)"

section \<open>Concrete environments\<close>

text \<open>A Vault that holds one secret, for the group \<^verbatim>\<open>all\<close>.\<close>

definition cl1 :: client where
  "cl1 p = (if p = ''secret/ansible/groups/all'' then Some [''x'' \<mapsto> PInt 1] else None)"

text \<open>
  A store of objects in which object 1 holds the variables of a host that gives the
  port 5986, and every other object is an empty dictionary.
\<close>

definition heap0 :: heap where
  "heap0 = (\<lambda>r. Map.empty)(1 := [''ansible_port'' \<mapsto> PInt 5986])"

text \<open>
  A Vault whose only secret is the one of the domain \<^verbatim>\<open>com\<close> under \<^verbatim>\<open>ssh\<close>, and it
  sets the connection type.
\<close>

definition cl2 :: client where
  "cl2 p = (if p = ''secret/ansible/ssh/domains/com''
            then Some [''ansible_connection'' \<mapsto> PStr ''winrm''] else None)"

text \<open>
  The Vault of the end-to-end example of the specification: secrets for two groups and
  for one host.
\<close>

definition cl3 :: client where
  "cl3 p =
     (if p = ''secret/ansible/groups/all'' then Some [''x'' \<mapsto> PInt 1]
      else if p = ''secret/ansible/groups/webservers'' then Some [''x'' \<mapsto> PInt 2, ''y'' \<mapsto> PInt 1]
      else if p = ''secret/ansible/ssh/hosts/hosta.example.com'' then Some [''x'' \<mapsto> PInt 3]
      else None)"

text \<open>
  A platform whose \<^verbatim>\<open>inet_pton\<close> accepts the dotted quads of decimal octets (one to
  three digits, no leading zero, at most 255) and no IPv6 address.
\<close>

definition octet :: "string \<Rightarrow> bool" where
  "octet p =
     (p \<noteq> [] \<and> length p \<le> 3 \<and> list_all (\<lambda>c. c \<in> set ''0123456789'') p
      \<and> (length p = 1 \<or> hd p \<noteq> CHR ''0'')
      \<and> foldl (\<lambda>n c. 10 * n + (of_char c - 48)) (0::nat) p \<le> 255)"

definition dotted_quad :: "string \<Rightarrow> bool" where
  "dotted_quad a = (let ps = py_split (CHR ''.'') a in length ps = 4 \<and> list_all octet ps)"

definition sock_v4 :: socket where
  "sock_v4 = \<lparr>inet_pton = Some (\<lambda>fam a. fam = AF_INET \<and> dotted_quad a), inet_aton = dotted_quad\<rparr>"

section \<open>What the specification says\<close>

text \<open>
  The connection defaults in the words of the specification: a port the host gives is
  used; with no port and no connection type the port is 22; a connection type the host
  gives is used; otherwise it is \<^verbatim>\<open>winrm\<close> for the ports 5985 and 5986 and
  \<^verbatim>\<open>ssh\<close> for any other. A host specifies a variable when \<^verbatim>\<open>get\<close> does not
  give \<^verbatim>\<open>None\<close>.
\<close>

definition spec_port :: "pydict \<Rightarrow> pyval option" where
  "spec_port evars =
     (if py_get evars ''ansible_port'' \<noteq> PNone then Some (py_get evars ''ansible_port'')
      else if py_get evars ''ansible_connection'' = PNone then Some (PInt 22)
      else None)"

definition spec_connection_type :: "pydict \<Rightarrow> pyval" where
  "spec_connection_type evars =
     (if py_get evars ''ansible_connection'' \<noteq> PNone then py_get evars ''ansible_connection''
      else if spec_port evars = Some (PInt 5985) \<or> spec_port evars = Some (PInt 5986)
           then PStr ''winrm''
           else PStr ''ssh'')"

text \<open>
  The lookup keys of a host in the words of the specification. The domain suffixes of
  a name are what follows each of its dots; from the widest to the narrowest they are
  looked up in the \<^verbatim>\<open>domains\<close> folder, and then the full name in the \<^verbatim>\<open>hosts\<close>
  folder. A name without a dot has the one key in the \<^verbatim>\<open>hosts\<close> folder.
\<close>

fun dot_suffixes :: "string \<Rightarrow> string list" where
  "dot_suffixes [] = []"
| "dot_suffixes (x # xs) = (if x = CHR ''.'' then xs # dot_suffixes xs else dot_suffixes xs)"

definition domain_suffixes :: "string \<Rightarrow> string list" where
  "domain_suffixes name = rev (dot_suffixes name)"

definition spec_lookup_keys :: "string \<Rightarrow> string \<Rightarrow> (string \<times> string) list" where
  "spec_lookup_keys conn name =
     (if CHR ''.'' \<notin> set name then [(conn @ ''/hosts'', name)]
      else map (\<lambda>s. (conn @ ''/domains'', s)) (domain_suffixes name) @ [(conn @ ''/hosts'', name)])"

text \<open>
  What the store holds for a cache key, and the cache that agrees with the store: the
  cache starts empty and only \<^verbatim>\<open>_read_vault\<close> writes to it, so in every state a
  run reaches, an entry is what the client gave for its path.
\<close>

definition store_value :: "client \<Rightarrow> string \<Rightarrow> pydict" where
  "store_value cl key = (case cl (''secret/ansible/'' @ key) of None \<Rightarrow> Map.empty | Some d \<Rightarrow> d)"

definition cache_consistent :: "client \<Rightarrow> state \<Rightarrow> bool" where
  "cache_consistent cl st = (\<forall>k d. vault_cache st k = Some d \<longrightarrow> d = store_value cl k)"

text \<open>What \<^verbatim>\<open>_read_vault\<close> returns for a cache key in a state.\<close>

definition vault_value :: "client \<Rightarrow> state \<Rightarrow> string \<Rightarrow> pydict" where
  "vault_value cl st key = (case vault_cache st key of Some d \<Rightarrow> d | None \<Rightarrow> store_value cl key)"

section \<open>Functions that describe the loop\<close>

text \<open>
  The parts of a name joined again with dots, the suffixes the loop builds from the
  reversed parts, the value of \<^verbatim>\<open>prev_part\<close> after some iterations, and a row of
  lookups merged one after the other.
\<close>

definition dotted :: "string list \<Rightarrow> string" where
  "dotted qs = concat (map (\<lambda>q. CHR ''.'' # q) qs)"

fun tails_join :: "string list \<Rightarrow> string list" where
  "tails_join [] = []"
| "tails_join (q # qs) = (q @ dotted qs) # tails_join qs"

fun acc_parts :: "string list \<Rightarrow> string \<Rightarrow> string list" where
  "acc_parts [] prev_part = []"
| "acc_parts (part # parts) prev_part =
     (part @ prev_part) # acc_parts parts (''.'' @ part @ prev_part)"

fun accum :: "string list \<Rightarrow> string \<Rightarrow> string" where
  "accum [] prev_part = prev_part"
| "accum (part # parts) prev_part = accum parts (''.'' @ part @ prev_part)"

fun lookup_all :: "client \<Rightarrow> (string \<times> string) list \<Rightarrow> pydict \<Rightarrow> state \<Rightarrow> pydict \<times> state" where
  "lookup_all cl [] data st = (data, st)"
| "lookup_all cl (k # ks) data st =
     (case read_vault cl (fst k) (snd k) st of
        (r, st1) \<Rightarrow> lookup_all cl ks (combine_vars data r) st1)"

section \<open>Properties\<close>

subsection \<open>The cached read\<close>

lemma read_vault_miss:
  assumes "vault_cache st (folder @ ''/'' @ name) = None"
  shows "read_vault cl folder name st =
    ((case cl (''secret/ansible/'' @ folder @ ''/'' @ name) of None \<Rightarrow> Map.empty | Some d \<Rightarrow> d),
     st\<lparr>lookups := lookups st @ [(folder, name)],
        store_reads := store_reads st @ [''secret/ansible/'' @ folder @ ''/'' @ name],
        vault_cache := (vault_cache st)(folder @ ''/'' @ name \<mapsto>
           (case cl (''secret/ansible/'' @ folder @ ''/'' @ name) of
              None \<Rightarrow> Map.empty | Some d \<Rightarrow> d))\<rparr>)"
  using assms by (simp add: read_vault_def Let_def)

lemma read_vault_hit:
  assumes "vault_cache st (folder @ ''/'' @ name) = Some d"
  shows "read_vault cl folder name st = (d, st\<lparr>lookups := lookups st @ [(folder, name)]\<rparr>)"
  using assms by (simp add: read_vault_def Let_def)

text \<open>
  C4 (cache idempotence). When the key \<open>folder/name\<close> is not in the cache, two calls of
  \<^verbatim>\<open>_read_vault\<close> with these arguments make exactly one read of the store, at
  \<^verbatim>\<open>secret/ansible/folder/name\<close>: the first call stores what it read under the key,
  and the second returns that value, reads nothing and leaves the cache as it is. In
  any state that holds the key, a call returns the cached value with no read of the
  store.
\<close>

theorem read_vault_cache_idempotent:
  "(vault_cache st (folder @ ''/'' @ name) = None \<longrightarrow>
      (case read_vault cl folder name st of
         (d1, st1) \<Rightarrow>
           (case read_vault cl folder name st1 of
              (d2, st2) \<Rightarrow>
                store_reads st1 = store_reads st @ [''secret/ansible/'' @ folder @ ''/'' @ name]
                \<and> vault_cache st1 (folder @ ''/'' @ name) = Some d1
                \<and> store_reads st2 = store_reads st1
                \<and> vault_cache st2 = vault_cache st1
                \<and> d2 = d1)))
   \<and> (\<forall>d. vault_cache st (folder @ ''/'' @ name) = Some d \<longrightarrow>
         (case read_vault cl folder name st of
            (d', st') \<Rightarrow>
              d' = d \<and> store_reads st' = store_reads st \<and> vault_cache st' = vault_cache st))"
  by (auto simp: read_vault_miss read_vault_hit)

theorem read_vault_cache_idempotent_witness:
  "vault_cache init_state (''groups'' @ ''/'' @ ''all'') = None
   \<and> store_reads (snd (read_vault cl1 ''groups'' ''all''
         (snd (read_vault cl1 ''groups'' ''all'' init_state)))) = [''secret/ansible/groups/all'']
   \<and> vault_cache (snd (read_vault cl1 ''groups'' ''all'' init_state)) (''groups'' @ ''/'' @ ''all'')
        = Some [''x'' \<mapsto> PInt 1]
   \<and> fst (read_vault cl1 ''groups'' ''all'' (snd (read_vault cl1 ''groups'' ''all'' init_state)))
        = [''x'' \<mapsto> PInt 1]"
  using read_vault_cache_idempotent [of init_state "''groups''" "''all''" cl1]
    read_vault_cache_idempotent
      [of "snd (read_vault cl1 ''groups'' ''all'' init_state)" "''groups''" "''all''" cl1]
  by (simp add: init_state_def cl1_def read_vault_def Let_def split: prod.splits)

subsection \<open>The entry point\<close>

lemma get_vars_loop_append:
  "get_vars_loop sock cl (xs @ ys) data st =
     (case get_vars_loop sock cl xs data st of
        (Inl e, st1) \<Rightarrow> (Inl e, st1)
      | (Inr d1, st1) \<Rightarrow> get_vars_loop sock cl ys d1 st1)"
  by (induction xs arbitrary: data st) (auto split: prod.splits sum.splits)

text \<open>
  C6 (classification error). For an entity that is neither a group nor a host,
  \<^verbatim>\<open>_get_vars\<close> raises \<^verbatim>\<open>AnsibleInternalError\<close> with the type of the entity. A
  batch that contains such an entity never returns a mapping: \<^verbatim>\<open>get_vars\<close> ends
  with the error of an earlier entity, or with this one.
\<close>

theorem unrecognised_entity_aborts:
  "get_vars_inner sock cl data (Other t) st =
     (Inl (AnsibleInternalError
             ''Unrecognised entity type encountered in hashivault_vars plugin: %s'' (TypeOf t)), st)
   \<and> get_vars sock cl (PyList (pre @ Other t # post)) st =
       (case get_vars sock cl (PyList pre) st of
          (Inl e, st1) \<Rightarrow> (Inl e, st1)
        | (Inr d1, st1) \<Rightarrow>
            (Inl (AnsibleInternalError
                    ''Unrecognised entity type encountered in hashivault_vars plugin: %s''
                    (TypeOf t)), st1))
   \<and> isl (fst (get_vars sock cl (PyList (pre @ Other t # post)) st))
   \<and> isl (fst (get_vars sock cl (NotList (Other t)) st))"
  by (auto simp: get_vars_def get_vars_loop_append get_vars_inner_def
      split: prod.splits sum.splits)

text \<open>
  C10 (a single entity). Called with one entity that is not a list, \<^verbatim>\<open>get_vars\<close>
  gives what it gives for the list that holds just this entity.
\<close>

theorem get_vars_wraps_single_entity:
  "get_vars sock cl (NotList e) st = get_vars sock cl (PyList [e]) st"
  by (simp add: get_vars_def)

subsection \<open>The connection defaults\<close>

lemma py_eq_None [simp]: "py_eq v PNone = (v = PNone)"
  by (cases v) simp_all

lemma py_eq_PInt: "i \<noteq> 0 \<Longrightarrow> i \<noteq> 1 \<Longrightarrow> py_eq v (PInt i) = (v = PInt i)"
  by (cases v) auto

lemma host_defaults_eq:
  "host_defaults data evars =
     Inr ((case spec_port evars of None \<Rightarrow> data | Some p \<Rightarrow> data(''ansible_port'' \<mapsto> p))
            (''ansible_connection'' \<mapsto> spec_connection_type evars))"
proof (cases "py_get evars ''ansible_port'' = PNone")
  case port_none: True
  show ?thesis
  proof (cases "py_get evars ''ansible_connection'' = PNone")
    case True
    with port_none show ?thesis
      by (simp add: host_defaults_def spec_port_def spec_connection_type_def)
  next
    case False
    with port_none show ?thesis
      by (simp add: host_defaults_def spec_port_def spec_connection_type_def)
  qed
next
  case port_some: False
  show ?thesis
  proof (cases "py_get evars ''ansible_connection'' = PNone")
    case True
    with port_some show ?thesis
      by (simp add: host_defaults_def spec_port_def spec_connection_type_def py_eq_PInt)
  next
    case False
    with port_some show ?thesis
      by (simp add: host_defaults_def spec_port_def spec_connection_type_def)
  qed
qed

lemma host_defaults_spec:
  "\<exists>data1. host_defaults data evars = Inr data1
     \<and> data1 ''ansible_connection'' = Some (spec_connection_type evars)"
  by (simp add: host_defaults_eq)

text \<open>
  C2 (connection defaults). For every host, the defaults step succeeds and leaves in
  the accumulator: under \<^verbatim>\<open>ansible_port\<close>, the port of the host when it gives
  one, 22 when it gives neither a port nor a connection type, and the value the
  accumulator already held otherwise; under \<^verbatim>\<open>ansible_connection\<close>, the connection
  type of the host when it gives one, and otherwise \<^verbatim>\<open>winrm\<close> when that port is
  5985 or 5986 and \<^verbatim>\<open>ssh\<close> when it is not. No other key changes.
\<close>

theorem host_defaults_rules:
  "\<exists>data1. host_defaults data evars = Inr data1
     \<and> data1 ''ansible_port'' =
         (if py_get evars ''ansible_port'' \<noteq> PNone then Some (py_get evars ''ansible_port'')
          else if py_get evars ''ansible_connection'' = PNone then Some (PInt 22)
          else data ''ansible_port'')
     \<and> data1 ''ansible_connection'' =
         Some (if py_get evars ''ansible_connection'' \<noteq> PNone
               then py_get evars ''ansible_connection''
               else if data1 ''ansible_port'' = Some (PInt 5985)
                       \<or> data1 ''ansible_port'' = Some (PInt 5986)
                    then PStr ''winrm'' else PStr ''ssh'')
     \<and> data1 |` (- {''ansible_port'', ''ansible_connection''})
         = data |` (- {''ansible_port'', ''ansible_connection''})"
proof -
  let ?d = "(case spec_port evars of None \<Rightarrow> data | Some p \<Rightarrow> data(''ansible_port'' \<mapsto> p))
            (''ansible_connection'' \<mapsto> spec_connection_type evars)"
  have p: "?d ''ansible_port'' =
         (if py_get evars ''ansible_port'' \<noteq> PNone then Some (py_get evars ''ansible_port'')
          else if py_get evars ''ansible_connection'' = PNone then Some (PInt 22)
          else data ''ansible_port'')"
    by (simp add: spec_port_def)
  have sp: "py_get evars ''ansible_connection'' = PNone \<Longrightarrow> ?d ''ansible_port'' = spec_port evars"
    by (simp add: spec_port_def)
  have c: "?d ''ansible_connection'' =
         Some (if py_get evars ''ansible_connection'' \<noteq> PNone
               then py_get evars ''ansible_connection''
               else if ?d ''ansible_port'' = Some (PInt 5985)
                       \<or> ?d ''ansible_port'' = Some (PInt 5986)
                    then PStr ''winrm'' else PStr ''ssh'')"
  proof (cases "py_get evars ''ansible_connection'' = PNone")
    case True
    show ?thesis
      unfolding sp [OF True] using True by (simp add: spec_connection_type_def)
  next
    case False
    then show ?thesis by (simp add: spec_connection_type_def)
  qed
  have f: "?d |` (- {''ansible_port'', ''ansible_connection''})
         = data |` (- {''ansible_port'', ''ansible_connection''})"
    by (cases "spec_port evars") (simp_all add: restrict_map_def fun_eq_iff)
  show ?thesis
    unfolding host_defaults_eq using p c f by blast
qed

lemma host_defaults_no_vars:
  "host_defaults data Map.empty =
     Inr (data(''ansible_port'' \<mapsto> PInt 22, ''ansible_connection'' \<mapsto> PStr ''ssh''))"
  by (simp add: host_defaults_eq spec_port_def spec_connection_type_def py_get_def)

subsection \<open>A path without data\<close>

lemma cache_consistent_init: "cache_consistent cl init_state"
  by (simp add: cache_consistent_def init_state_def)

lemma cache_consistent_read_vault:
  assumes "cache_consistent cl st"
  shows "cache_consistent cl (snd (read_vault cl folder name st))"
proof (cases "vault_cache st (folder @ ''/'' @ name)")
  case None
  show ?thesis
    using assms unfolding read_vault_miss [OF None]
    by (simp add: cache_consistent_def store_value_def)
next
  case (Some d)
  show ?thesis
    using assms unfolding read_vault_hit [OF Some]
    by (simp add: cache_consistent_def)
qed

lemma read_vault_value:
  assumes "cache_consistent cl st"
  shows "fst (read_vault cl folder name st) = store_value cl (folder @ ''/'' @ name)"
proof (cases "vault_cache st (folder @ ''/'' @ name)")
  case None
  show ?thesis
    unfolding read_vault_miss [OF None] by (simp add: store_value_def)
next
  case (Some d)
  then have "d = store_value cl (folder @ ''/'' @ name)"
    using assms unfolding cache_consistent_def by blast
  then show ?thesis
    unfolding read_vault_hit [OF Some] by simp
qed

lemma read_vault_caches:
  "vault_cache (snd (read_vault cl folder name st)) (folder @ ''/'' @ name)
     = Some (fst (read_vault cl folder name st))"
proof (cases "vault_cache st (folder @ ''/'' @ name)")
  case None
  show ?thesis unfolding read_vault_miss [OF None] by simp
next
  case (Some d)
  show ?thesis unfolding read_vault_hit [OF Some] using Some by simp
qed

text \<open>
  C5 (store miss). When the store holds nothing at \<^verbatim>\<open>secret/ansible/folder/name\<close>
  and the cache agrees with the store, \<^verbatim>\<open>_read_vault\<close> raises nothing: it returns
  the empty dictionary, the cache then holds the empty dictionary under the key, and
  merging it gives back the accumulator as it was.
\<close>

theorem store_miss_is_empty:
  assumes "cache_consistent cl st"
    and "cl (''secret/ansible/'' @ folder @ ''/'' @ name) = None"
  shows "\<exists>st1. read_vault cl folder name st = (Map.empty, st1)
           \<and> vault_cache st1 (folder @ ''/'' @ name) = Some Map.empty
           \<and> combine_vars data Map.empty = data
           \<and> final_lookup cl folder name data st = (Inr data, st1)
           \<and> cache_consistent cl st1"
proof -
  obtain r st1 where rv: "read_vault cl folder name st = (r, st1)"
    by (cases "read_vault cl folder name st")
  have "r = store_value cl (folder @ ''/'' @ name)"
    using read_vault_value [OF assms(1), of folder name] rv by simp
  then have r: "r = Map.empty"
    using assms(2) by (simp add: store_value_def)
  have c: "vault_cache st1 (folder @ ''/'' @ name) = Some r"
    using read_vault_caches [of cl folder name st] rv by simp
  have k: "cache_consistent cl st1"
    using cache_consistent_read_vault [OF assms(1), of folder name] rv by simp
  show ?thesis
    using rv r c k by (simp add: final_lookup_def combine_vars_def)
qed

theorem store_miss_is_empty_witness:
  "cache_consistent cl1 init_state
   \<and> cl1 (''secret/ansible/'' @ ''groups'' @ ''/'' @ ''web'') = None
   \<and> fst (read_vault cl1 ''groups'' ''web'' init_state) = Map.empty
   \<and> vault_cache (snd (read_vault cl1 ''groups'' ''web'' init_state)) ''groups/web'' = Some Map.empty
   \<and> fst (final_lookup cl1 ''groups'' ''web'' [''x'' \<mapsto> PInt 7] init_state) = Inr [''x'' \<mapsto> PInt 7]"
proof -
  have a: "cache_consistent cl1 init_state" by (rule cache_consistent_init)
  have b: "cl1 (''secret/ansible/'' @ ''groups'' @ ''/'' @ ''web'') = None"
    by (simp add: cl1_def)
  show ?thesis
    using a b store_miss_is_empty [OF a b, of "[''x'' \<mapsto> PInt 7]"] by auto
qed

subsection \<open>Hosts named by an IP address\<close>

text \<open>
  C9 (IP addresses). For a host whose name is a valid IPv4 or IPv6 address,
  \<^verbatim>\<open>_get_vars\<close> succeeds and makes exactly one lookup, of the name itself in the
  \<^verbatim>\<open>hosts\<close> folder of the connection type, whether or not the name has dots.
\<close>

theorem ip_address_single_lookup:
  assumes "is_valid_ip_address sock hname = Inr True"
  shows "\<exists>d st1. get_vars_inner sock cl data (Host hname hvars) st = (Inr d, st1)
           \<and> lookups st1 = lookups st @ [(py_str (spec_connection_type hvars) @ ''/hosts'', hname)]"
proof -
  obtain data1 where hd: "host_defaults data hvars = Inr data1"
    and c: "data1 ''ansible_connection'' = Some (spec_connection_type hvars)"
    using host_defaults_spec by blast
  show ?thesis
    using assms hd c
    by (auto simp: get_vars_inner_def conn_folder_def final_lookup_def read_vault_def Let_def
        split: prod.splits option.splits)
qed

theorem ip_address_single_lookup_witness:
  "is_valid_ip_address sock_v4 ''1.2.3.4'' = Inr True
   \<and> lookups (snd (get_vars_inner sock_v4 cl1 Map.empty (Host ''1.2.3.4'' Map.empty) init_state))
       = [(''ssh/hosts'', ''1.2.3.4'')]"
proof -
  have a: "is_valid_ip_address sock_v4 ''1.2.3.4'' = Inr True"
    by (simp add: is_valid_ip_address_def is_valid_ipv4_address_def sock_v4_def dotted_quad_def octet_def)
  have s: "spec_connection_type Map.empty = PStr ''ssh''"
    by (simp add: spec_connection_type_def spec_port_def py_get_def)
  show ?thesis
    using a ip_address_single_lookup [OF a, of cl1 Map.empty Map.empty init_state]
    by (auto simp: s init_state_def)
qed

subsection \<open>Splitting\<close>

lemma py_split_nonempty: "py_split c s \<noteq> []"
  by (induction s) (auto split: list.splits)

lemma py_split_length: "length (py_split c s) = Suc (count_list s c)"
  by (induction s) (auto split: list.splits simp: py_split_nonempty)

lemma py_split_single: "(length (py_split c s) = 1) = (c \<notin> set s)"
  by (simp add: py_split_length count_list_0_iff)

lemma tails_join_split:
  "tails_join (py_split (CHR ''.'') s) = s # dot_suffixes s"
proof (induction s)
  case Nil
  show ?case by (simp add: dotted_def)
next
  case (Cons x xs)
  obtain p ps where sp: "py_split (CHR ''.'') xs = p # ps"
    using py_split_nonempty [of "CHR ''.''" xs] by (cases "py_split (CHR ''.'') xs") auto
  from Cons sp have ih: "p @ dotted ps = xs" "tails_join ps = dot_suffixes xs"
    by simp_all
  show ?case
  proof (cases "x = CHR ''.''")
    case True
    then show ?thesis using sp ih by (simp add: dotted_def)
  next
    case False
    then show ?thesis using sp ih by simp
  qed
qed

lemma acc_parts_append:
  "acc_parts (xs @ ys) prev = acc_parts xs prev @ acc_parts ys (accum xs prev)"
  by (induction xs arbitrary: prev) simp_all

lemma accum_append: "accum (xs @ ys) prev = accum ys (accum xs prev)"
  by (induction xs arbitrary: prev) simp_all

lemma accum_rev: "accum (rev qs) [] = dotted qs"
  by (induction qs) (simp_all add: accum_append dotted_def)

lemma acc_parts_rev: "acc_parts (rev ps) [] = rev (tails_join ps)"
  by (induction ps) (simp_all add: acc_parts_append accum_rev)

lemma dot_suffixes_shorter: "s \<in> set (dot_suffixes name) \<Longrightarrow> length s < length name"
  by (induction name) (auto split: if_splits)

subsection \<open>Lookups in a row\<close>

lemma read_vault_lookups:
  "lookups (snd (read_vault cl folder name st)) = lookups st @ [(folder, name)]"
  by (simp add: read_vault_def Let_def split: option.splits)

lemma read_vault_vault_value:
  "fst (read_vault cl folder name st) = vault_value cl st (folder @ ''/'' @ name)"
  by (simp add: read_vault_def Let_def vault_value_def store_value_def split: option.splits)

lemma vault_value_read_vault:
  "vault_value cl (snd (read_vault cl folder name st)) = vault_value cl st"
  by (rule ext) (simp add: read_vault_def Let_def vault_value_def store_value_def split: option.splits)

lemma lookup_all_lookups:
  "lookups (snd (lookup_all cl ks data st)) = lookups st @ ks"
proof (induction ks arbitrary: data st)
  case Nil
  show ?case by simp
next
  case (Cons k ks)
  obtain r st1 where rv: "read_vault cl (fst k) (snd k) st = (r, st1)"
    by (cases "read_vault cl (fst k) (snd k) st")
  have "lookups st1 = lookups st @ [k]"
    using read_vault_lookups [of cl "fst k" "snd k" st] rv by simp
  then show ?case
    using rv Cons.IH [of "combine_vars data r" st1] by simp
qed

lemma lookup_all_keeps:
  assumes "\<forall>k \<in> set ks. key \<notin> dom (vault_value cl st (fst k @ ''/'' @ snd k))"
  shows "fst (lookup_all cl ks data st) key = data key"
  using assms
proof (induction ks arbitrary: data st)
  case Nil
  show ?case by simp
next
  case (Cons k ks)
  let ?r = "fst (read_vault cl (fst k) (snd k) st)"
  let ?st1 = "snd (read_vault cl (fst k) (snd k) st)"
  have r: "key \<notin> dom ?r"
    using Cons.prems by (simp add: read_vault_vault_value)
  have "\<forall>k \<in> set ks. key \<notin> dom (vault_value cl ?st1 (fst k @ ''/'' @ snd k))"
    using Cons.prems by (simp add: vault_value_read_vault)
  then have "fst (lookup_all cl ks (combine_vars data ?r) ?st1) key = combine_vars data ?r key"
    by (rule Cons.IH)
  moreover have "combine_vars data ?r key = data key"
    using r by (simp add: combine_vars_def map_add_def domIff split: option.splits)
  ultimately show ?case
    by (simp add: case_prod_beta)
qed

lemma domain_loop_prefix:
  assumes "\<forall>s \<in> set (acc_parts xs prev). s \<noteq> ename"
  shows "domain_loop cl ename (xs @ ys) folder prev data st =
     (case lookup_all cl (map (Pair folder) (acc_parts xs prev)) data st of
        (d1, st1) \<Rightarrow> domain_loop cl ename ys folder (accum xs prev) d1 st1)"
  using assms
proof (induction xs arbitrary: prev data st)
  case Nil
  show ?case by simp
next
  case (Cons x xs)
  then show ?case by (simp add: Let_def split: prod.splits)
qed

lemma domain_loop_last:
  assumes "part @ prev = ename"
  shows "domain_loop cl ename [part] folder prev data st =
     (case conn_folder data ''/hosts'' of
        Inl e \<Rightarrow> (Inl e, st)
      | Inr hfolder \<Rightarrow> final_lookup cl hfolder ename data st)"
  using assms by (simp add: Let_def final_lookup_def split: sum.splits prod.splits)

lemma final_lookup_lookups:
  "\<exists>d st1. final_lookup cl folder name data st = (Inr d, st1)
     \<and> lookups st1 = lookups st @ [(folder, name)]"
  using read_vault_lookups [of cl folder name st]
  by (simp add: final_lookup_def case_prod_beta)

lemma final_lookup_trace:
  "lookups (snd (final_lookup cl folder name data st)) = lookups st @ [(folder, name)]"
  using read_vault_lookups [of cl folder name st]
  by (simp add: final_lookup_def case_prod_beta)



lemma get_vars_inner_host_cases:
  "get_vars_inner sock cl data (Host hname hvars) st =
     (let data1 = (case spec_port hvars of None \<Rightarrow> data
                   | Some p \<Rightarrow> data(''ansible_port'' \<mapsto> p))
                  (''ansible_connection'' \<mapsto> spec_connection_type hvars);
          conn = py_str (spec_connection_type hvars)
      in case is_valid_ip_address sock hname of
           Inl e \<Rightarrow> (Inl e, st)
         | Inr True \<Rightarrow> final_lookup cl (conn @ ''/hosts'') hname data1 st
         | Inr False \<Rightarrow>
             if CHR ''.'' \<notin> set hname then final_lookup cl (conn @ ''/hosts'') hname data1 st
             else domain_loop cl hname (rev (py_split (CHR ''.'') hname)) (conn @ ''/domains'') []
                    data1 st)"
proof -
  have "length (py_split (CHR ''.'') hname) \<noteq> 1 \<Longrightarrow> 1 < length (py_split (CHR ''.'') hname)"
    using py_split_nonempty [of "CHR ''.''" hname] by (cases "py_split (CHR ''.'') hname") auto
  then show ?thesis
    by (simp add: get_vars_inner_def host_defaults_eq conn_folder_def Let_def
        py_split_single [symmetric] split: sum.splits bool.splits)
qed

lemma domain_loop_dotted:
  "domain_loop cl hname (rev (py_split (CHR ''.'') hname)) folder [] data st =
     (case lookup_all cl (map (Pair folder) (domain_suffixes hname)) data st of
        (d1, st1) \<Rightarrow>
          (case conn_folder d1 ''/hosts'' of
             Inl e \<Rightarrow> (Inl e, st1)
           | Inr hfolder \<Rightarrow> final_lookup cl hfolder hname d1 st1))"
proof -
  obtain q qs where sp: "py_split (CHR ''.'') hname = q # qs"
    using py_split_nonempty [of "CHR ''.''" hname] by (cases "py_split (CHR ''.'') hname") auto
  have tj: "q @ dotted qs = hname" "tails_join qs = dot_suffixes hname"
    using tails_join_split [of hname] sp by simp_all
  have ap: "acc_parts (rev qs) [] = domain_suffixes hname"
    using tj by (simp add: acc_parts_rev domain_suffixes_def)
  have ne: "\<forall>s \<in> set (acc_parts (rev qs) []). s \<noteq> hname"
    using dot_suffixes_shorter [of _ hname] by (auto simp: ap domain_suffixes_def)
  have last: "q @ accum (rev qs) [] = hname"
    using tj by (simp add: accum_rev)
  have "domain_loop cl hname (rev qs @ [q]) folder [] data st =
     (case lookup_all cl (map (Pair folder) (acc_parts (rev qs) [])) data st of
        (d1, st1) \<Rightarrow> domain_loop cl hname [q] folder (accum (rev qs) []) d1 st1)"
    by (rule domain_loop_prefix [OF ne])
  then show ?thesis
    unfolding sp ap by (simp add: domain_loop_last [OF last] del: domain_loop.simps)
qed

text \<open>
  C1 (lookup sequence), as amended. For a host whose name is not a valid IP address,
  and when no record read for a domain suffix holds the key
  \<^verbatim>\<open>ansible_connection\<close>, \<^verbatim>\<open>_get_vars\<close> succeeds and looks up, in this order:
  each domain suffix of the name from the widest to the narrowest in the folder
  \<^verbatim>\<open>domains\<close> of the connection type, and then the full name in its folder
  \<^verbatim>\<open>hosts\<close>; a name without a dot has this last lookup only.
\<close>

theorem host_lookup_sequence:
  assumes "is_valid_ip_address sock hname = Inr False"
    and "\<forall>s \<in> set (domain_suffixes hname).
           ''ansible_connection'' \<notin> dom (vault_value cl st
              (py_str (spec_connection_type hvars) @ ''/domains'' @ ''/'' @ s))"
  shows "\<exists>d st1. get_vars_inner sock cl data (Host hname hvars) st = (Inr d, st1)
           \<and> lookups st1 = lookups st @ spec_lookup_keys (py_str (spec_connection_type hvars)) hname"
proof (cases "CHR ''.'' \<in> set hname")
  case False
  then show ?thesis
    using assms(1) final_lookup_lookups
    by (simp add: get_vars_inner_host_cases spec_lookup_keys_def)
next
  case True
  let ?conn = "py_str (spec_connection_type hvars)"
  let ?data1 = "(case spec_port hvars of None \<Rightarrow> data
                   | Some p \<Rightarrow> data(''ansible_port'' \<mapsto> p))
                  (''ansible_connection'' \<mapsto> spec_connection_type hvars)"
  let ?ks = "map (Pair (?conn @ ''/domains'')) (domain_suffixes hname)"
  obtain d1 st1 where la: "lookup_all cl ?ks ?data1 st = (d1, st1)"
    by (cases "lookup_all cl ?ks ?data1 st")
  have l1: "lookups st1 = lookups st @ ?ks"
    using lookup_all_lookups [of cl ?ks ?data1 st] la by simp
  have "\<forall>k \<in> set ?ks. ''ansible_connection'' \<notin> dom (vault_value cl st (fst k @ ''/'' @ snd k))"
    using assms(2) by auto
  then have "fst (lookup_all cl ?ks ?data1 st) ''ansible_connection'' = ?data1 ''ansible_connection''"
    by (rule lookup_all_keeps)
  then have c: "conn_folder d1 ''/hosts'' = Inr (?conn @ ''/hosts'')"
    using la by (simp add: conn_folder_def)
  obtain d st2 where fl: "final_lookup cl (?conn @ ''/hosts'') hname d1 st1 = (Inr d, st2)"
    and l2: "lookups st2 = lookups st1 @ [(?conn @ ''/hosts'', hname)]"
    using final_lookup_lookups by blast
  have "get_vars_inner sock cl data (Host hname hvars) st = (Inr d, st2)"
    using True assms(1) la c fl
    by (simp add: get_vars_inner_host_cases domain_loop_dotted)
  moreover have "lookups st2 = lookups st @ spec_lookup_keys ?conn hname"
    using True l1 l2 by (simp add: spec_lookup_keys_def comp_def)
  ultimately show ?thesis by blast
qed

lemma sock_v4_hosta: "is_valid_ip_address sock_v4 ''hosta.example.com'' = Inr False"
  by (simp add: is_valid_ip_address_def is_valid_ipv4_address_def is_valid_ipv6_address_def
      sock_v4_def dotted_quad_def octet_def)

lemma sock_v4_quad: "is_valid_ip_address sock_v4 ''1.2.3.4'' = Inr True"
  by (simp add: is_valid_ip_address_def is_valid_ipv4_address_def sock_v4_def dotted_quad_def
      octet_def)

lemma spec_connection_type_empty: "spec_connection_type Map.empty = PStr ''ssh''"
  by (simp add: spec_connection_type_def spec_port_def py_get_def)

theorem host_lookup_sequence_witness:
  "is_valid_ip_address sock_v4 ''hosta.example.com'' = Inr False
   \<and> lookups (snd (get_vars_inner sock_v4 cl1 Map.empty (Host ''hosta.example.com'' Map.empty)
         init_state))
       = [(''ssh/domains'', ''com''), (''ssh/domains'', ''example.com''),
          (''ssh/hosts'', ''hosta.example.com'')]"
proof -
  have b: "\<forall>s \<in> set (domain_suffixes ''hosta.example.com'').
           ''ansible_connection'' \<notin> dom (vault_value cl1 init_state
              (py_str (spec_connection_type Map.empty) @ ''/domains'' @ ''/'' @ s))"
    by (simp add: domain_suffixes_def spec_connection_type_empty vault_value_def init_state_def
        store_value_def cl1_def)
  have k: "spec_lookup_keys ''ssh'' ''hosta.example.com''
       = [(''ssh/domains'', ''com''), (''ssh/domains'', ''example.com''),
          (''ssh/hosts'', ''hosta.example.com'')]"
    by (simp add: spec_lookup_keys_def domain_suffixes_def)
  show ?thesis
    using sock_v4_hosta
      host_lookup_sequence [OF sock_v4_hosta b, of Map.empty]
    by (auto simp: spec_connection_type_empty k init_state_def)
qed

text \<open>
  The claim as first stated fails for the host \<^verbatim>\<open>1.2.3.4\<close>: its name has dots, and
  there is one lookup, where the sequence of the specification has four keys.
\<close>

theorem ip_host_lookup_counterexample:
  "lookups (snd (get_vars_inner sock_v4 cl1 Map.empty (Host ''1.2.3.4'' Map.empty) init_state))
     = [(''ssh/hosts'', ''1.2.3.4'')]
   \<and> spec_lookup_keys ''ssh'' ''1.2.3.4''
     = [(''ssh/domains'', ''4''), (''ssh/domains'', ''3.4''), (''ssh/domains'', ''2.3.4''),
        (''ssh/hosts'', ''1.2.3.4'')]"
proof -
  have "lookups (snd (get_vars_inner sock_v4 cl1 Map.empty (Host ''1.2.3.4'' Map.empty) init_state))
     = [(''ssh/hosts'', ''1.2.3.4'')]"
    by (simp add: get_vars_inner_host_cases sock_v4_quad spec_connection_type_empty Let_def
        final_lookup_trace init_state_def)
  moreover have "spec_lookup_keys ''ssh'' ''1.2.3.4''
     = [(''ssh/domains'', ''4''), (''ssh/domains'', ''3.4''), (''ssh/domains'', ''2.3.4''),
        (''ssh/hosts'', ''1.2.3.4'')]"
    by (simp add: spec_lookup_keys_def domain_suffixes_def)
  ultimately show ?thesis by simp
qed

text \<open>
  When the record of a domain sets \<^verbatim>\<open>ansible_connection\<close>, the folder of the last
  lookup follows the new value: the hypothesis on the records above is needed.
\<close>

lemma sock_v4_acom: "is_valid_ip_address sock_v4 ''a.com'' = Inr False"
  by (simp add: is_valid_ip_address_def is_valid_ipv4_address_def is_valid_ipv6_address_def
      sock_v4_def dotted_quad_def octet_def)

lemma domain_record_changes_hosts_folder:
  "lookups (snd (get_vars_inner sock_v4 cl2 Map.empty (Host ''a.com'' Map.empty) init_state))
     = [(''ssh/domains'', ''com''), (''winrm/hosts'', ''a.com'')]"
  by (simp add: get_vars_inner_host_cases sock_v4_acom spec_connection_type_empty Let_def
      init_state_def read_vault_def cl2_def combine_vars_def conn_folder_def final_lookup_def)

subsection \<open>Host names and their parts\<close>



subsection \<open>What the connection defaults write\<close>

lemma host_defaults_heap_eq:
  "host_defaults_heap data evars h =
     Inr (h(data := (case spec_port (h evars) of None \<Rightarrow> h data
                     | Some p \<Rightarrow> (h data)(''ansible_port'' \<mapsto> p))
                    (''ansible_connection'' \<mapsto> spec_connection_type (h evars))))"
proof (cases "py_get (h evars) ''ansible_port'' = PNone")
  case port_none: True
  show ?thesis
  proof (cases "py_get (h evars) ''ansible_connection'' = PNone")
    case True
    with port_none show ?thesis
      by (auto simp: host_defaults_heap_def Let_def spec_port_def spec_connection_type_def py_get_def)
  next
    case False
    with port_none show ?thesis
      by (auto simp: host_defaults_heap_def Let_def spec_port_def spec_connection_type_def py_get_def)
  qed
next
  case port_some: False
  show ?thesis
  proof (cases "py_get (h evars) ''ansible_connection'' = PNone")
    case True
    with port_some show ?thesis
      by (auto simp: host_defaults_heap_def Let_def spec_port_def spec_connection_type_def
          py_eq_PInt py_get_def)
  next
    case False
    with port_some show ?thesis
      by (auto simp: host_defaults_heap_def Let_def spec_port_def spec_connection_type_def py_get_def)
  qed
qed

text \<open>
  C8 (the variables of the host are not changed). The defaults block succeeds on every
  store of objects and changes the object of the accumulator only, where it leaves
  what the block computes from the two dictionaries; so when the accumulator is not
  the very object \<^verbatim>\<open>entity.vars\<close>, the variables of the host are after the block
  what they were before it. In \<^verbatim>\<open>get_vars\<close> the accumulator is the new dictionary
  \<^verbatim>\<open>{}\<close> or the one \<^verbatim>\<open>combine_vars\<close> returned.
\<close>

theorem host_defaults_frame:
  "\<exists>h'. host_defaults_heap data evars h = Inr h'
     \<and> host_defaults (h data) (h evars) = Inr (h' data)
     \<and> h' = h(data := h' data)
     \<and> (evars \<noteq> data \<longrightarrow> h' evars = h evars)"
  by (simp add: host_defaults_heap_eq host_defaults_eq)

theorem host_defaults_frame_witness:
  "(1::nat) \<noteq> 0
   \<and> host_defaults_heap 0 1 heap0
       = Inr (heap0(0 := [''ansible_port'' \<mapsto> PInt 5986, ''ansible_connection'' \<mapsto> PStr ''winrm'']))
   \<and> (heap0(0 := [''ansible_port'' \<mapsto> PInt 5986, ''ansible_connection'' \<mapsto> PStr ''winrm''])) 1
       = [''ansible_port'' \<mapsto> PInt 5986]"
proof -
  have e: "host_defaults_heap 0 1 heap0
       = Inr (heap0(0 := [''ansible_port'' \<mapsto> PInt 5986, ''ansible_connection'' \<mapsto> PStr ''winrm'']))"
    by (simp add: host_defaults_heap_eq heap0_def spec_port_def spec_connection_type_def py_get_def)
  show ?thesis
    using host_defaults_frame [of 0 1 heap0] e by (simp add: heap0_def)
qed

subsection \<open>The merge of every layer\<close>

lemma dot_suffixes_no_dot: "CHR ''.'' \<notin> set name \<Longrightarrow> dot_suffixes name = []"
  by (induction name) auto

lemma lookup_all_value:
  "fst (lookup_all cl ks data st)
     = foldl combine_vars data (map (\<lambda>k. vault_value cl st (fst k @ ''/'' @ snd k)) ks)
   \<and> vault_value cl (snd (lookup_all cl ks data st)) = vault_value cl st"
proof (induction ks arbitrary: data st)
  case Nil
  show ?case by simp
next
  case (Cons k ks)
  obtain r st1 where rv: "read_vault cl (fst k) (snd k) st = (r, st1)"
    by (cases "read_vault cl (fst k) (snd k) st")
  have r: "r = vault_value cl st (fst k @ ''/'' @ snd k)"
    using read_vault_vault_value [of cl "fst k" "snd k" st] rv by simp
  have v: "vault_value cl st1 = vault_value cl st"
    using vault_value_read_vault [of cl "fst k" "snd k" st] rv by simp
  show ?case
    using rv r v Cons.IH [of "combine_vars data r" st1] by simp
qed

lemma final_lookup_value:
  "\<exists>st1. final_lookup cl folder name data st
       = (Inr (combine_vars data (vault_value cl st (folder @ ''/'' @ name))), st1)
     \<and> lookups st1 = lookups st @ [(folder, name)]"
  using read_vault_lookups [of cl folder name st] read_vault_vault_value [of cl folder name st]
  by (simp add: final_lookup_def case_prod_beta)

lemma foldl_combine_vars_keeps:
  "A k \<noteq> None \<Longrightarrow> foldl combine_vars A Bs k \<noteq> None"
proof (induction Bs arbitrary: A)
  case Nil
  then show ?case by simp
next
  case (Cons B Bs)
  have "combine_vars A B k \<noteq> None"
    using Cons.prems by (simp add: combine_vars_def map_add_def split: option.splits)
  then show ?case
    using Cons.IH [of "combine_vars A B"] by simp
qed

text \<open>
  C3 (overlay merge law). The merge of an accumulator \<open>A\<close> with a record \<open>B\<close> gives
  every key of \<open>B\<close> the value of \<open>B\<close>, whatever \<open>A\<close> held, and leaves every other
  key with its value in \<open>A\<close>. \<^verbatim>\<open>_get_vars\<close> merges every record it looks up in this
  way, the accumulator being the earlier layer. For a group the result is the
  accumulator merged with the record of the group. For a host the result is the
  accumulator with the connection defaults, merged with the record of each domain
  suffix in the order of the lookups (none for an IP address or a name without a dot)
  and last with the record of the host, and these records are exactly the lookups
  made; when the test for an IP address raises, nothing is looked up or merged.
\<close>

theorem overlay_merge_law:
  "(\<forall>k. combine_vars A B k = (case B k of Some v \<Rightarrow> Some v | None \<Rightarrow> A k))
   \<and> (\<exists>R st1. read_vault cl ''groups'' gname st = (R, st1)
         \<and> get_vars_inner sock cl A (Group gname) st = (Inr (combine_vars A R), st1))
   \<and> (case is_valid_ip_address sock hname of
         Inl e \<Rightarrow> get_vars_inner sock cl A (Host hname hvars) st = (Inl e, st)
       | Inr b \<Rightarrow>
           (\<exists>A1 dfolder hfolder st1.
              host_defaults A hvars = Inr A1
              \<and> conn_folder A1 ''/domains'' = Inr dfolder
              \<and> (let dkeys = (if b then [] else map (Pair dfolder) (domain_suffixes hname));
                      D = foldl combine_vars A1
                            (map (\<lambda>k. vault_value cl st (fst k @ ''/'' @ snd k)) dkeys)
                  in conn_folder D ''/hosts'' = Inr hfolder
                     \<and> get_vars_inner sock cl A (Host hname hvars) st
                         = (Inr (combine_vars D (vault_value cl st (hfolder @ ''/'' @ hname))), st1)
                     \<and> lookups st1 = lookups st @ dkeys @ [(hfolder, hname)])))"
proof -
  let ?A1 = "(case spec_port hvars of None \<Rightarrow> A | Some p \<Rightarrow> A(''ansible_port'' \<mapsto> p))
               (''ansible_connection'' \<mapsto> spec_connection_type hvars)"
  let ?conn = "py_str (spec_connection_type hvars)"
  let ?rec = "\<lambda>k. vault_value cl st (fst k @ ''/'' @ snd k)"
  have law: "\<forall>k. combine_vars A B k = (case B k of Some v \<Rightarrow> Some v | None \<Rightarrow> A k)"
    by (simp add: combine_vars_def map_add_def split: option.splits)
  have grp: "\<exists>R st1. read_vault cl ''groups'' gname st = (R, st1)
         \<and> get_vars_inner sock cl A (Group gname) st = (Inr (combine_vars A R), st1)"
    by (simp add: get_vars_inner_def final_lookup_def split: prod.splits)
  have hd: "host_defaults A hvars = Inr ?A1"
    by (rule host_defaults_eq)
  have df: "conn_folder ?A1 ''/domains'' = Inr (?conn @ ''/domains'')"
    by (simp add: conn_folder_def)
  have single: "\<exists>st1. conn_folder ?A1 ''/hosts'' = Inr (?conn @ ''/hosts'')
       \<and> final_lookup cl (?conn @ ''/hosts'') hname ?A1 st
           = (Inr (combine_vars ?A1 (vault_value cl st ((?conn @ ''/hosts'') @ ''/'' @ hname))), st1)
       \<and> lookups st1 = lookups st @ [(?conn @ ''/hosts'', hname)]"
    using final_lookup_value [of cl "?conn @ ''/hosts''" hname ?A1 st]
    by (simp add: conn_folder_def)
  have host: "case is_valid_ip_address sock hname of
         Inl e \<Rightarrow> get_vars_inner sock cl A (Host hname hvars) st = (Inl e, st)
       | Inr b \<Rightarrow>
           (\<exists>A1 dfolder hfolder st1.
              host_defaults A hvars = Inr A1
              \<and> conn_folder A1 ''/domains'' = Inr dfolder
              \<and> (let dkeys = (if b then [] else map (Pair dfolder) (domain_suffixes hname));
                      D = foldl combine_vars A1 (map ?rec dkeys)
                  in conn_folder D ''/hosts'' = Inr hfolder
                     \<and> get_vars_inner sock cl A (Host hname hvars) st
                         = (Inr (combine_vars D (vault_value cl st (hfolder @ ''/'' @ hname))), st1)
                     \<and> lookups st1 = lookups st @ dkeys @ [(hfolder, hname)]))"
  proof (cases "is_valid_ip_address sock hname")
    case (Inl e)
    then show ?thesis by (simp add: get_vars_inner_host_cases)
  next
    case (Inr b)
    show ?thesis
    proof (cases "b \<or> CHR ''.'' \<notin> set hname")
      case True
      have g: "get_vars_inner sock cl A (Host hname hvars) st
                 = final_lookup cl (?conn @ ''/hosts'') hname ?A1 st"
        using Inr True by (cases b) (simp_all add: get_vars_inner_host_cases Let_def)
      have dk: "(if b then [] else map (Pair (?conn @ ''/domains'')) (domain_suffixes hname)) = []"
        using True by (auto simp: domain_suffixes_def dot_suffixes_no_dot)
      obtain st1 where
        "conn_folder ?A1 ''/hosts'' = Inr (?conn @ ''/hosts'')"
        "final_lookup cl (?conn @ ''/hosts'') hname ?A1 st
           = (Inr (combine_vars ?A1 (vault_value cl st ((?conn @ ''/hosts'') @ ''/'' @ hname))), st1)"
        "lookups st1 = lookups st @ [(?conn @ ''/hosts'', hname)]"
        using single by blast
      then have "host_defaults A hvars = Inr ?A1
              \<and> conn_folder ?A1 ''/domains'' = Inr (?conn @ ''/domains'')
              \<and> (let dkeys = (if b then [] else map (Pair (?conn @ ''/domains'')) (domain_suffixes hname));
                      D = foldl combine_vars ?A1 (map ?rec dkeys)
                  in conn_folder D ''/hosts'' = Inr (?conn @ ''/hosts'')
                     \<and> get_vars_inner sock cl A (Host hname hvars) st
                         = (Inr (combine_vars D (vault_value cl st ((?conn @ ''/hosts'') @ ''/'' @ hname))), st1)
                     \<and> lookups st1 = lookups st @ dkeys @ [(?conn @ ''/hosts'', hname)])"
        unfolding dk Let_def using hd df g by simp
      then show ?thesis
        unfolding Inr by (simp only: sum.case) blast
    next
      case False
      then have nb: "\<not> b" and dot: "CHR ''.'' \<in> set hname" by auto
      let ?dkeys = "map (Pair (?conn @ ''/domains'')) (domain_suffixes hname)"
      let ?D = "foldl combine_vars ?A1 (map ?rec ?dkeys)"
      obtain d1 st1 where la: "lookup_all cl ?dkeys ?A1 st = (d1, st1)"
        by (cases "lookup_all cl ?dkeys ?A1 st")
      have d1: "d1 = ?D" and vv: "vault_value cl st1 = vault_value cl st"
        using lookup_all_value [of cl ?dkeys ?A1 st] la by simp_all
      have l1: "lookups st1 = lookups st @ ?dkeys"
        using lookup_all_lookups [of cl ?dkeys ?A1 st] la by simp
      have "?D ''ansible_connection'' \<noteq> None"
        by (rule foldl_combine_vars_keeps) simp
      then obtain c where c: "?D ''ansible_connection'' = Some c" by blast
      then have cf: "conn_folder ?D ''/hosts'' = Inr (py_str c @ ''/hosts'')"
        by (simp add: conn_folder_def)
      obtain st2 where fl: "final_lookup cl (py_str c @ ''/hosts'') hname ?D st1
           = (Inr (combine_vars ?D (vault_value cl st1 ((py_str c @ ''/hosts'') @ ''/'' @ hname))), st2)"
        and l2: "lookups st2 = lookups st1 @ [(py_str c @ ''/hosts'', hname)]"
        using final_lookup_value [of cl "py_str c @ ''/hosts''" hname ?D st1] by blast
      have g: "get_vars_inner sock cl A (Host hname hvars) st
                 = (Inr (combine_vars ?D (vault_value cl st ((py_str c @ ''/hosts'') @ ''/'' @ hname))), st2)"
        using Inr nb dot la d1 cf fl vv
        by (simp add: get_vars_inner_host_cases domain_loop_dotted Let_def)
      have "host_defaults A hvars = Inr ?A1
              \<and> conn_folder ?A1 ''/domains'' = Inr (?conn @ ''/domains'')
              \<and> (let dkeys = (if b then [] else map (Pair (?conn @ ''/domains'')) (domain_suffixes hname));
                      D = foldl combine_vars ?A1 (map ?rec dkeys)
                  in conn_folder D ''/hosts'' = Inr (py_str c @ ''/hosts'')
                     \<and> get_vars_inner sock cl A (Host hname hvars) st
                         = (Inr (combine_vars D (vault_value cl st ((py_str c @ ''/hosts'') @ ''/'' @ hname))), st2)
                     \<and> lookups st2 = lookups st @ dkeys @ [(py_str c @ ''/hosts'', hname)])"
        unfolding Let_def using hd df cf g l1 l2 nb by simp
      then show ?thesis
        unfolding Inr by (simp only: sum.case) blast
    qed
  qed
  show ?thesis using law grp host by blast
qed

subsection \<open>The example of the specification\<close>

text \<open>
  The groups \<^verbatim>\<open>all\<close> and \<^verbatim>\<open>webservers\<close> and the host \<^verbatim>\<open>hosta.example.com\<close>,
  resolved in this order from an empty cache: the host's secret wins for \<^verbatim>\<open>x\<close>, the
  group's \<^verbatim>\<open>y\<close> stays, the defaults are 22 and \<^verbatim>\<open>ssh\<close>, and the store is read
  five times.
\<close>

lemma get_vars_inner_group:
  "get_vars_inner sock cl data (Group gname) st = final_lookup cl ''groups'' gname data st"
  by (simp add: get_vars_inner_def)

lemma end_to_end:
  "\<exists>d st. get_vars sock_v4 cl3
         (PyList [Group ''all'', Group ''webservers'', Host ''hosta.example.com'' Map.empty])
         init_state = (Inr d, st)
     \<and> d ''x'' = Some (PInt 3) \<and> d ''y'' = Some (PInt 1)
     \<and> d ''ansible_port'' = Some (PInt 22) \<and> d ''ansible_connection'' = Some (PStr ''ssh'')
     \<and> dom d = {''x'', ''y'', ''ansible_port'', ''ansible_connection''}
     \<and> store_reads st = [''secret/ansible/groups/all'', ''secret/ansible/groups/webservers'',
            ''secret/ansible/ssh/domains/com'', ''secret/ansible/ssh/domains/example.com'',
            ''secret/ansible/ssh/hosts/hosta.example.com'']"
  by (simp add: get_vars_def get_vars_inner_host_cases get_vars_inner_group sock_v4_hosta Let_def
      spec_connection_type_empty spec_port_def py_get_def final_lookup_def read_vault_def
      init_state_def cl3_def combine_vars_def conn_folder_def insert_commute)

end
